theory Spec2Isabelle
  imports Main
begin

section \<open>ScrollbackBuffer (src/terminal.ts, lines 18-46)\<close>

text \<open>
  The class has three private fields: the array of retained chunks, the running total of
  their lengths and the cap. A chunk is a JavaScript string; its \<open>length\<close> is the
  number of its code units, modelled by the length of a character list. The running total is
  an integer, so that the subtraction in the trimming loop is the source's subtraction and not
  a truncated one. The cap is a size: a natural number (the only construction in the
  repository, in \<open>spawn\<close>, uses the default of 100 KiB).
\<close>

record ScrollbackBuffer =
  buffer :: "string list"
  totalSize :: int
  maxSize :: nat

definition defaultMaxSize :: nat where
  "defaultMaxSize = 100 * 1024"

definition newScrollbackBuffer :: "nat \<Rightarrow> ScrollbackBuffer" where
  "newScrollbackBuffer m = \<lparr>buffer = [], totalSize = 0, maxSize = m\<rparr>"

text \<open>
  The loop of \<open>write\<close> (named \<open>write_sb\<close> below, \<open>write\<close> being an Isar command):
  \<^verbatim>\<open>while (this.totalSize > this.maxSize && this.buffer.length > 1) {
       const removed = this.buffer.shift()!
       this.totalSize -= removed.length }\<close>
\<close>

function trim :: "ScrollbackBuffer \<Rightarrow> ScrollbackBuffer" where
  "trim sb =
     (if totalSize sb > int (maxSize sb) \<and> length (buffer sb) > 1
      then trim (sb\<lparr>buffer := tl (buffer sb),
                    totalSize := totalSize sb - int (length (hd (buffer sb)))\<rparr>)
      else sb)"
  by pat_completeness auto
termination
  by (relation "measure (\<lambda>sb. length (buffer sb))") auto

declare trim.simps [simp del]

definition write_sb :: "string \<Rightarrow> ScrollbackBuffer \<Rightarrow> ScrollbackBuffer" where
  "write_sb data sb =
     trim (sb\<lparr>buffer := buffer sb @ [data],
               totalSize := totalSize sb + int (length data)\<rparr>)"

definition getContents :: "ScrollbackBuffer \<Rightarrow> string" where
  "getContents sb = concat (buffer sb)"

definition clear :: "ScrollbackBuffer \<Rightarrow> ScrollbackBuffer" where
  "clear sb = sb\<lparr>buffer := [], totalSize := 0\<rparr>"

text \<open>A sequence of calls on one buffer, oldest call first.\<close>

datatype bufferOp = Write string | Clear

fun applyOp :: "ScrollbackBuffer \<Rightarrow> bufferOp \<Rightarrow> ScrollbackBuffer" where
  "applyOp sb (Write data) = write_sb data sb"
| "applyOp sb Clear = clear sb"

definition runOps :: "bufferOp list \<Rightarrow> ScrollbackBuffer \<Rightarrow> ScrollbackBuffer" where
  "runOps ops sb = foldl applyOp sb ops"

definition writeAll :: "string list \<Rightarrow> ScrollbackBuffer \<Rightarrow> ScrollbackBuffer" where
  "writeAll chunks sb = foldl (\<lambda>b c. write_sb c b) sb chunks"

text \<open>The size actually retained: the sum of the lengths of the chunks held.\<close>

definition retained :: "ScrollbackBuffer \<Rightarrow> int" where
  "retained sb = int (sum_list (map length (buffer sb)))"


section \<open>Sessions and the TerminalManager (src/terminal.ts, lines 48-289)\<close>

datatype SessionState = Attached | Detached

text \<open>
  The callbacks that \<open>websocket.ts\<close> registers on a session are closures over the
  session id of the request that created them. The output callback emits
  \<open>terminal:output\<close>; the exit callback emits \<open>terminal:closed\<close> and calls
  \<open>terminalManager.remove\<close>.
\<close>

datatype dataCallback = ForwardOutput string

datatype exitCallback = ForwardClosed string

text \<open>
  One object per successful \<open>spawn\<close>: the fields of the \<open>TerminalSession\<close>
  interface, together with what the closures created by the same call capture (the two callback
  arrays and the scrollback) and what is observable of the PTY process (whether \<open>kill\<close> was
  sent to it, its dimensions, the input written to it). Timestamps are the milliseconds of
  \<open>Date.now()\<close>; \<open>detachedAt\<close> is \<open>number | null\<close>.
\<close>

record TerminalSession =
  sessionId :: string
  state :: SessionState
  scrollback :: ScrollbackBuffer
  createdAt :: int
  detachedAt :: "int option"
  shell :: string
  cols :: int
  rows :: int
  idleTimeoutMs :: int
  dataCallbacks :: "dataCallback list"
  exitCallbacks :: "exitCallback list"
  ptyKilled :: bool
  ptySize :: "int \<times> int"
  ptyInput :: "string list"

text \<open>
  The manager's \<open>Map\<close> holds references to session objects, in insertion order. A
  session object outlives its entry: after \<open>sessions.delete\<close> the listeners installed on
  the PTY still hold its callback arrays and its scrollback. So the objects live in a store
  (\<open>heap\<close>), addressed by reference, and the \<open>Map\<close> is an association list from
  session ids to references.
\<close>

record TerminalManager =
  sessions :: "(string \<times> nat) list"
  heap :: "nat \<rightharpoonup> TerminalSession"
  nextRef :: nat

definition newTerminalManager :: TerminalManager where
  "newTerminalManager = \<lparr>sessions = [], heap = Map.empty, nextRef = 0\<rparr>"

datatype error = DuplicateSession string | SpawnFailure

fun errorMessage :: "error \<Rightarrow> string" where
  "errorMessage (DuplicateSession sid) = ''Session '' @ sid @ '' already exists''"
| "errorMessage SpawnFailure = ''spawn failed''"

definition lookupRef :: "string \<Rightarrow> TerminalManager \<Rightarrow> nat option" where
  "lookupRef sid tm = map_of (sessions tm) sid"

definition mapDelete :: "string \<Rightarrow> (string \<times> nat) list \<Rightarrow> (string \<times> nat) list" where
  "mapDelete sid m = filter (\<lambda>(k, r). k \<noteq> sid) m"

text \<open>\<open>get\<close> returns the session object, \<open>has\<close> whether the id has an entry.\<close>

definition get :: "string \<Rightarrow> TerminalManager \<Rightarrow> TerminalSession option" where
  "get sid tm = (case lookupRef sid tm of None \<Rightarrow> None | Some r \<Rightarrow> heap tm r)"

definition has :: "string \<Rightarrow> TerminalManager \<Rightarrow> bool" where
  "has sid tm = (lookupRef sid tm \<noteq> None)"

text \<open>A mutation of the object behind a reference.\<close>

definition updSession ::
  "nat \<Rightarrow> (TerminalSession \<Rightarrow> TerminalSession) \<Rightarrow> TerminalManager \<Rightarrow> TerminalManager" where
  "updSession r f tm = tm\<lparr>heap := (heap tm)(r := map_option f (heap tm r))\<rparr>"

text \<open>The methods of a session object (lines 152-177).\<close>

definition sessionOnData :: "nat \<Rightarrow> dataCallback \<Rightarrow> TerminalManager \<Rightarrow> TerminalManager" where
  "sessionOnData r cb tm = updSession r (\<lambda>s. s\<lparr>dataCallbacks := dataCallbacks s @ [cb]\<rparr>) tm"

definition sessionOnExit :: "nat \<Rightarrow> exitCallback \<Rightarrow> TerminalManager \<Rightarrow> TerminalManager" where
  "sessionOnExit r cb tm = updSession r (\<lambda>s. s\<lparr>exitCallbacks := exitCallbacks s @ [cb]\<rparr>) tm"

definition sessionWrite :: "nat \<Rightarrow> string \<Rightarrow> TerminalManager \<Rightarrow> TerminalManager" where
  "sessionWrite r data tm = updSession r (\<lambda>s. s\<lparr>ptyInput := ptyInput s @ [data]\<rparr>) tm"

definition sessionResize :: "nat \<Rightarrow> int \<Rightarrow> int \<Rightarrow> TerminalManager \<Rightarrow> TerminalManager" where
  "sessionResize r c rw tm = updSession r (\<lambda>s. s\<lparr>cols := c, rows := rw, ptySize := (c, rw)\<rparr>) tm"

definition sessionKill :: "nat \<Rightarrow> TerminalManager \<Rightarrow> TerminalManager" where
  "sessionKill r tm = updSession r (\<lambda>s. s\<lparr>ptyKilled := True\<rparr>) tm"

definition clearDataCallbacks :: "nat \<Rightarrow> TerminalManager \<Rightarrow> TerminalManager" where
  "clearDataCallbacks r tm = updSession r (\<lambda>s. s\<lparr>dataCallbacks := []\<rparr>) tm"

text \<open>
  \<open>spawn\<close> (lines 93-182). The first statement throws when the id has an entry; nothing has
  been touched at that point. \<open>pty.spawn\<close> is the operating system's: whether it throws is a
  parameter (\<open>ptyFails\<close>). The working directory and the environment only reach the
  process and are left out, as is the debug logging. \<open>now\<close> is the value of
  \<open>Date.now()\<close>; \<open>idleTimeoutMs || 0\<close> turns a missing timeout into 0.
\<close>

definition spawn ::
  "string \<Rightarrow> string \<Rightarrow> int \<Rightarrow> int \<Rightarrow> int option \<Rightarrow> int \<Rightarrow> bool \<Rightarrow> TerminalManager
     \<Rightarrow> (error + nat) \<times> TerminalManager" where
  "spawn sid sh c rw idle now ptyFails tm =
     (if has sid tm then (Inl (DuplicateSession sid), tm)
      else if ptyFails then (Inl SpawnFailure, tm)
      else
        let r = nextRef tm;
            session = \<lparr>sessionId = sid, state = Attached,
                       scrollback = newScrollbackBuffer defaultMaxSize,
                       createdAt = now, detachedAt = None, shell = sh, cols = c, rows = rw,
                       idleTimeoutMs = (case idle of None \<Rightarrow> 0 | Some t \<Rightarrow> t),
                       dataCallbacks = [], exitCallbacks = [],
                       ptyKilled = False, ptySize = (c, rw), ptyInput = []\<rparr>
        in (Inr r, tm\<lparr>sessions := sessions tm @ [(sid, r)],
                      heap := (heap tm)(r \<mapsto> session),
                      nextRef := Suc r\<rparr>))"

text \<open>\<open>detach\<close> (lines 187-199) and \<open>reattach\<close> (lines 204-215).\<close>

definition detach :: "int \<Rightarrow> string \<Rightarrow> TerminalManager \<Rightarrow> bool \<times> TerminalManager" where
  "detach now sid tm =
     (case lookupRef sid tm of
        None \<Rightarrow> (False, tm)
      | Some r \<Rightarrow>
          (True, clearDataCallbacks r
                   (updSession r (\<lambda>s. s\<lparr>state := Detached, detachedAt := Some now\<rparr>) tm)))"

definition reattach :: "string \<Rightarrow> TerminalManager \<Rightarrow> string option \<times> TerminalManager" where
  "reattach sid tm =
     (case lookupRef sid tm of
        None \<Rightarrow> (None, tm)
      | Some r \<Rightarrow>
          (case heap tm r of
             None \<Rightarrow> (None, tm)
           | Some s \<Rightarrow>
               (Some (getContents (scrollback s)),
                updSession r (\<lambda>s. s\<lparr>state := Attached, detachedAt := None\<rparr>) tm)))"

text \<open>
  \<open>cleanupIdleSessions\<close> (lines 239-255). The condition tests \<open>session.detachedAt\<close>
  for truthiness: \<open>null\<close> and 0 are both falsy.
\<close>

definition idleExpired :: "int \<Rightarrow> TerminalSession \<Rightarrow> bool" where
  "idleExpired now s =
     (state s = Detached \<and> idleTimeoutMs s > 0 \<and>
      (case detachedAt s of
         None \<Rightarrow> False
       | Some d \<Rightarrow> d \<noteq> 0 \<and> now - d > idleTimeoutMs s))"

definition cleanupBody :: "int \<Rightarrow> string \<Rightarrow> nat \<Rightarrow> TerminalManager \<Rightarrow> TerminalManager" where
  "cleanupBody now sid r tm =
     (case heap tm r of
        None \<Rightarrow> tm
      | Some s \<Rightarrow>
          if idleExpired now s
          then (sessionKill r tm)\<lparr>sessions := mapDelete sid (sessions (sessionKill r tm))\<rparr>
          else tm)"

text \<open>
  The \<open>for ... of this.sessions\<close> loop visits the entries in insertion order; the body
  deletes at most the entry being visited, which leaves the entries still to come in place.
\<close>

fun cleanupLoop :: "int \<Rightarrow> (string \<times> nat) list \<Rightarrow> TerminalManager \<Rightarrow> TerminalManager" where
  "cleanupLoop now [] tm = tm"
| "cleanupLoop now ((sid, r) # es) tm = cleanupLoop now es (cleanupBody now sid r tm)"

definition cleanupIdleSessions :: "int \<Rightarrow> TerminalManager \<Rightarrow> TerminalManager" where
  "cleanupIdleSessions now tm = cleanupLoop now (sessions tm) tm"

text \<open>\<open>remove\<close> (lines 274-276) and \<open>kill\<close> (lines 281-289).\<close>

definition remove_session :: "string \<Rightarrow> TerminalManager \<Rightarrow> bool \<times> TerminalManager" where
  "remove_session sid tm = (has sid tm, tm\<lparr>sessions := mapDelete sid (sessions tm)\<rparr>)"

definition kill :: "string \<Rightarrow> TerminalManager \<Rightarrow> bool \<times> TerminalManager" where
  "kill sid tm =
     (case lookupRef sid tm of
        Some r \<Rightarrow> (True, (sessionKill r tm)\<lparr>sessions := mapDelete sid (sessions (sessionKill r tm))\<rparr>)
      | None \<Rightarrow> (False, tm))"


section \<open>The WebSocketManager (src/websocket.ts)\<close>

text \<open>What the agent sends on its socket.\<close>

datatype emit =
    TerminalOutput string string
  | TerminalClosed string int
  | TerminalError string string
  | TerminalScrollback string string
  | SystemInfo
  | Heartbeat

text \<open>
  The fields of the class: the socket (\<open>null\<close> or an object), the terminal manager, the
  attempt counter, the heartbeat timer (\<open>null\<close> or set) and the connected flag. Added to
  them: the log of everything emitted, the delays of the reconnection timers handed to
  \<open>setTimeout\<close>, the number of calls of \<open>socket.connect()\<close>, and whether the promise of
  \<open>connect\<close> was rejected.
\<close>

record Agent =
  terminalManager :: TerminalManager
  socket :: bool
  isConnected :: bool
  reconnectAttempts :: nat
  heartbeatTimer :: bool
  emitted :: "emit list"
  timers :: "nat list"
  connectCalls :: nat
  rejected :: bool

definition newAgent :: Agent where
  "newAgent = \<lparr>terminalManager = newTerminalManager, socket = False, isConnected = False,
               reconnectAttempts = 0, heartbeatTimer = False, emitted = [], timers = [],
               connectCalls = 0, rejected = False\<rparr>"

text \<open>\<open>this.socket?.emit(...)\<close>: nothing is sent when the socket is \<open>null\<close>.\<close>

definition emit :: "emit \<Rightarrow> Agent \<Rightarrow> Agent" where
  "emit e a = (if socket a then a\<lparr>emitted := emitted a @ [e]\<rparr> else a)"

definition onManager :: "(TerminalManager \<Rightarrow> TerminalManager) \<Rightarrow> Agent \<Rightarrow> Agent" where
  "onManager f a = a\<lparr>terminalManager := f (terminalManager a)\<rparr>"

subsection \<open>Connection events (lines 34-125, 944-1001)\<close>

definition sendSystemInfo :: "Agent \<Rightarrow> Agent" where
  "sendSystemInfo a = emit SystemInfo a"

definition stopHeartbeat :: "Agent \<Rightarrow> Agent" where
  "stopHeartbeat a = (if heartbeatTimer a then a\<lparr>heartbeatTimer := False\<rparr> else a)"

definition startHeartbeat :: "Agent \<Rightarrow> Agent" where
  "startHeartbeat a = (stopHeartbeat a)\<lparr>heartbeatTimer := True\<rparr>"

definition heartbeatTick :: "Agent \<Rightarrow> Agent" where
  "heartbeatTick a = (if \<not> isConnected a then a else emit Heartbeat a)"

definition connect :: "Agent \<Rightarrow> Agent" where
  "connect a = a\<lparr>socket := True\<rparr>"

definition disconnect :: "Agent \<Rightarrow> Agent" where
  "disconnect a = (stopHeartbeat a)\<lparr>socket := False, isConnected := False\<rparr>"

definition onConnect :: "Agent \<Rightarrow> Agent" where
  "onConnect a = startHeartbeat (sendSystemInfo (a\<lparr>isConnected := True, reconnectAttempts := 0\<rparr>))"

definition onConnectError :: "Agent \<Rightarrow> Agent" where
  "onConnectError a =
     (let a' = a\<lparr>reconnectAttempts := Suc (reconnectAttempts a)\<rparr>
      in if reconnectAttempts a' \<ge> 5 \<and> \<not> isConnected a' then a'\<lparr>rejected := True\<rparr> else a')"

definition onDisconnect :: "string \<Rightarrow> Agent \<Rightarrow> Agent" where
  "onDisconnect reason a =
     (let a' = stopHeartbeat (a\<lparr>isConnected := False\<rparr>)
      in if reason = ''io server disconnect'' \<or> reason = ''io client disconnect''
         then a'\<lparr>timers := timers a' @ [if reason = ''io client disconnect'' then 2000 else 1000]\<rparr>
         else a')"

definition onReconnectTimer :: "Agent \<Rightarrow> Agent" where
  "onReconnectTimer a =
     (if \<not> isConnected a \<and> socket a then a\<lparr>connectCalls := Suc (connectCalls a)\<rparr> else a)"

definition onReconnect :: "nat \<Rightarrow> Agent \<Rightarrow> Agent" where
  "onReconnect attemptNumber a = startHeartbeat (sendSystemInfo a)"

text \<open>The socket's events, as the handlers registered in \<open>connect\<close> see them.\<close>

datatype socketEvent =
    EvConnect
  | EvConnectError
  | EvDisconnect string
  | EvReconnect nat
  | EvReconnectAttempt nat

fun handleEvent :: "Agent \<Rightarrow> socketEvent \<Rightarrow> Agent" where
  "handleEvent a EvConnect = onConnect a"
| "handleEvent a EvConnectError = onConnectError a"
| "handleEvent a (EvDisconnect reason) = onDisconnect reason a"
| "handleEvent a (EvReconnect n) = onReconnect n a"
| "handleEvent a (EvReconnectAttempt n) = a"

definition runEvents :: "socketEvent list \<Rightarrow> Agent \<Rightarrow> Agent" where
  "runEvents evs a = foldl handleEvent a evs"

definition systemInfosSent :: "Agent \<Rightarrow> nat" where
  "systemInfosSent a = count_list (emitted a) SystemInfo"

definition connectedEntries :: "socketEvent list \<Rightarrow> nat" where
  "connectedEntries evs = count_list evs EvConnect"

definition reconnectEvents :: "socketEvent list \<Rightarrow> nat" where
  "reconnectEvents evs = length (filter (\<lambda>e. case e of EvReconnect n \<Rightarrow> True | _ \<Rightarrow> False) evs)"

subsection \<open>What the PTY listeners installed by \<open>spawn\<close> do (terminal.ts, lines 122-138)\<close>

fun runDataCallback :: "string \<Rightarrow> Agent \<Rightarrow> dataCallback \<Rightarrow> Agent" where
  "runDataCallback data a (ForwardOutput sid) = emit (TerminalOutput sid data) a"

fun runExitCallback :: "int \<Rightarrow> Agent \<Rightarrow> exitCallback \<Rightarrow> Agent" where
  "runExitCallback exitCode a (ForwardClosed sid) =
     onManager (\<lambda>tm. snd (remove_session sid tm)) (emit (TerminalClosed sid exitCode) a)"

text \<open>
  The PTY of the session object \<open>r\<close> produces output: the chunk goes to the object's
  scrollback, then to every registered output callback. Neither listener looks at the
  manager's \<open>Map\<close>.
\<close>

definition ptyOnData :: "nat \<Rightarrow> string \<Rightarrow> Agent \<Rightarrow> Agent" where
  "ptyOnData r data a =
     (case heap (terminalManager a) r of
        None \<Rightarrow> a
      | Some s \<Rightarrow>
          foldl (runDataCallback data)
            (onManager (updSession r (\<lambda>s. s\<lparr>scrollback := write_sb data (scrollback s)\<rparr>)) a)
            (dataCallbacks s))"

definition ptyOnExit :: "nat \<Rightarrow> int \<Rightarrow> Agent \<Rightarrow> Agent" where
  "ptyOnExit r exitCode a =
     (case heap (terminalManager a) r of
        None \<Rightarrow> a
      | Some s \<Rightarrow> foldl (runExitCallback exitCode) a (exitCallbacks s))"

subsection \<open>Terminal handlers (lines 130-310)\<close>

text \<open>
  \<open>x || d\<close> on an optional number: the default replaces a missing value and 0.
\<close>

definition orDefault :: "int \<Rightarrow> int option \<Rightarrow> int" where
  "orDefault d x = (case x of None \<Rightarrow> d | Some v \<Rightarrow> if v = 0 then d else v)"

text \<open>
  \<open>terminal:spawn\<close> (lines 134-193): \<open>sh\<close> is the shell after
  \<open>msg.shell || config.shell\<close>; the handler catches what \<open>spawn\<close> throws.
\<close>

definition onTerminalSpawn ::
  "string \<Rightarrow> string \<Rightarrow> int option \<Rightarrow> int option \<Rightarrow> int option \<Rightarrow> int \<Rightarrow> bool \<Rightarrow> Agent
     \<Rightarrow> Agent" where
  "onTerminalSpawn sid sh c rw idle now ptyFails a =
     (case spawn sid sh (orDefault 80 c) (orDefault 24 rw) idle now ptyFails
             (terminalManager a) of
        (Inr r, tm) \<Rightarrow>
          a\<lparr>terminalManager :=
               sessionOnExit r (ForwardClosed sid) (sessionOnData r (ForwardOutput sid) tm)\<rparr>
      | (Inl e, tm) \<Rightarrow> emit (TerminalError sid (errorMessage e)) (a\<lparr>terminalManager := tm\<rparr>))"

definition onTerminalDetach :: "int \<Rightarrow> string \<Rightarrow> Agent \<Rightarrow> Agent" where
  "onTerminalDetach now sid a = onManager (\<lambda>tm. snd (detach now sid tm)) a"

definition onTerminalKill :: "string \<Rightarrow> Agent \<Rightarrow> Agent" where
  "onTerminalKill sid a = onManager (\<lambda>tm. snd (kill sid tm)) a"

text \<open>
  \<open>terminal:reattach\<close> (lines 268-310). \<open>msg.cols && msg.rows\<close> holds when both are
  present and non-zero.
\<close>

definition onTerminalReattach :: "string \<Rightarrow> int option \<Rightarrow> int option \<Rightarrow> Agent \<Rightarrow> Agent" where
  "onTerminalReattach sid c rw a =
     (case reattach sid (terminalManager a) of
        (None, tm) \<Rightarrow> emit (TerminalError sid ''Session not found'') (a\<lparr>terminalManager := tm\<rparr>)
      | (Some sb, tm) \<Rightarrow>
          let a1 = emit (TerminalScrollback sid sb) (a\<lparr>terminalManager := tm\<rparr>)
          in (case lookupRef sid (terminalManager a1) of
                None \<Rightarrow> a1
              | Some r \<Rightarrow>
                  let a2 = onManager (sessionOnData r (ForwardOutput sid)) (onManager (clearDataCallbacks r) a1)
                  in (case (c, rw) of
                        (Some c', Some rw') \<Rightarrow>
                          if c' \<noteq> 0 \<and> rw' \<noteq> 0 then onManager (sessionResize r c' rw') a2 else a2
                      | _ \<Rightarrow> a2)))"


section \<open>Auxiliary definitions for the statements\<close>

text \<open>One round of the trimming loop: the oldest chunk is shifted out.\<close>

abbreviation shifted :: "ScrollbackBuffer \<Rightarrow> ScrollbackBuffer" where
  "shifted sb \<equiv> sb\<lparr>buffer := tl (buffer sb),
                    totalSize := totalSize sb - int (length (hd (buffer sb)))\<rparr>"

text \<open>What a list of callbacks sends for one chunk of output, or for one exit code.\<close>

definition outputsOf :: "string \<Rightarrow> dataCallback list \<Rightarrow> emit list" where
  "outputsOf data cbs = map (\<lambda>cb. case cb of ForwardOutput sid \<Rightarrow> TerminalOutput sid data) cbs"

definition closedOf :: "int \<Rightarrow> exitCallback list \<Rightarrow> emit list" where
  "closedOf exitCode cbs = map (\<lambda>cb. case cb of ForwardClosed sid \<Rightarrow> TerminalClosed sid exitCode) cbs"

text \<open>The reaper's condition on the object behind a reference, and on the ids of a list of entries.\<close>

definition expiredRef :: "int \<Rightarrow> TerminalManager \<Rightarrow> nat \<Rightarrow> bool" where
  "expiredRef now tm r = (case heap tm r of None \<Rightarrow> False | Some s \<Rightarrow> idleExpired now s)"

definition doomed :: "int \<Rightarrow> TerminalManager \<Rightarrow> (string \<times> nat) list \<Rightarrow> string \<Rightarrow> bool" where
  "doomed now tm es k = (\<exists>r. (k, r) \<in> set es \<and> expiredRef now tm r)"

text \<open>
  The expiry condition in the words of the specification, to compare with \<open>idleExpired\<close>:
  the session is detached, its timeout is positive, and the time since \<open>detachedAt\<close> exceeds
  the timeout.
\<close>

definition specExpired :: "int \<Rightarrow> TerminalSession \<Rightarrow> bool" where
  "specExpired now s =
     (state s = Detached \<and> idleTimeoutMs s > 0 \<and>
      (case detachedAt s of None \<Rightarrow> False | Some d \<Rightarrow> now - d > idleTimeoutMs s))"

subsection \<open>Concrete runs\<close>

text \<open>
  An agent that has opened its socket, served \<open>terminal:spawn\<close> for \<open>s1\<close> at time 1000
  with an idle timeout of 5000 ms, and whose PTY has printed \<open>hi\<close>.
\<close>

definition exampleAgent :: Agent where
  "exampleAgent =
     ptyOnData 0 ''hi''
       (onTerminalSpawn ''s1'' ''/bin/sh'' None None (Some 5000) 1000 False (connect newAgent))"

definition exampleSession :: TerminalSession where
  "exampleSession =
     \<lparr>sessionId = ''s1'', state = Attached,
      scrollback = \<lparr>buffer = [''hi''], totalSize = 2, maxSize = defaultMaxSize\<rparr>,
      createdAt = 1000, detachedAt = None, shell = ''/bin/sh'', cols = 80, rows = 24,
      idleTimeoutMs = 5000, dataCallbacks = [ForwardOutput ''s1''],
      exitCallbacks = [ForwardClosed ''s1''], ptyKilled = False, ptySize = (80, 24),
      ptyInput = []\<rparr>"

text \<open>The same manager after \<open>detach\<close> at time 1000.\<close>

definition detachedManager :: TerminalManager where
  "detachedManager = snd (detach 1000 ''s1'' (terminalManager exampleAgent))"

text \<open>
  A manager whose clock is held at 0 while \<open>s1\<close> is spawned and detached, as no running
  agent's clock is.
\<close>

definition epochManager :: TerminalManager where
  "epochManager =
     snd (detach 0 ''s1''
            (snd (spawn ''s1'' ''/bin/sh'' 80 24 (Some 5000) 0 False newTerminalManager)))"

subsection \<open>Runs of the agent and the states they reach\<close>

text \<open>
  Everything that can happen to the agent between its start and its shutdown: a terminal
  request from the server, an event of a PTY, a tick of the reaper's interval, an event of the
  socket.
\<close>

datatype agentEvent =
    TerminalSpawn string string "int option" "int option" "int option" int bool
  | TerminalDetach int string
  | TerminalReattach string "int option" "int option"
  | TerminalKill string
  | PtyData nat string
  | PtyExit nat int
  | IdleTick int
  | SocketEvent socketEvent

fun agentStep :: "Agent \<Rightarrow> agentEvent \<Rightarrow> Agent" where
  "agentStep a (TerminalSpawn sid sh c rw idle now ptyFails) =
     onTerminalSpawn sid sh c rw idle now ptyFails a"
| "agentStep a (TerminalDetach now sid) = onTerminalDetach now sid a"
| "agentStep a (TerminalReattach sid c rw) = onTerminalReattach sid c rw a"
| "agentStep a (TerminalKill sid) = onTerminalKill sid a"
| "agentStep a (PtyData r data) = ptyOnData r data a"
| "agentStep a (PtyExit r exitCode) = ptyOnExit r exitCode a"
| "agentStep a (IdleTick now) = onManager (cleanupIdleSessions now) a"
| "agentStep a (SocketEvent e) = handleEvent a e"

definition runAgent :: "agentEvent list \<Rightarrow> Agent \<Rightarrow> Agent" where
  "runAgent evs a = foldl agentStep a evs"

text \<open>
  What holds of the manager in every state a run reaches: the ids of the registry are distinct,
  every entry refers to an object, and a detached session has no output callback and a
  \<open>detachedAt\<close>.
\<close>

definition quiet :: "TerminalSession \<Rightarrow> bool" where
  "quiet s = (state s = Detached \<longrightarrow> dataCallbacks s = [] \<and> detachedAt s \<noteq> None)"

definition wellFormed :: "TerminalManager \<Rightarrow> bool" where
  "wellFormed tm =
     (distinct (map fst (sessions tm))
      \<and> (\<forall>e \<in> set (sessions tm). heap tm (snd e) \<noteq> None)
      \<and> (\<forall>r s. heap tm r = Some s \<longrightarrow> quiet s))"

text \<open>
  The events that read the clock, with the value of \<open>Date.now()\<close> they carry. The clock of a
  running agent counts the milliseconds since 1970 and is positive.
\<close>

fun clockReading :: "agentEvent \<Rightarrow> int option" where
  "clockReading (TerminalSpawn sid sh c rw idle now ptyFails) = Some now"
| "clockReading (TerminalDetach now sid) = Some now"
| "clockReading (IdleTick now) = Some now"
| "clockReading ev = None"

definition clockRuns :: "agentEvent \<Rightarrow> bool" where
  "clockRuns ev = (case clockReading ev of None \<Rightarrow> True | Some t \<Rightarrow> 0 < t)"

text \<open>
  No session carries 0 as its \<open>detachedAt\<close>: the only assignment of a number to the field
  is \<open>session.detachedAt = Date.now()\<close> in \<open>detach\<close>.
\<close>

definition stamped :: "TerminalManager \<Rightarrow> bool" where
  "stamped tm = (\<forall>r s. heap tm r = Some s \<longrightarrow> detachedAt s \<noteq> Some 0)"

lemmas manager_defs = lookupRef_def get_def has_def updSession_def sessionOnData_def
  sessionOnExit_def sessionKill_def sessionResize_def clearDataCallbacks_def mapDelete_def

section \<open>The scrollback buffer\<close>

subsection \<open>The trimming loop\<close>

lemma trim_step:
  "int (maxSize sb) < totalSize sb \<and> 1 < length (buffer sb) \<Longrightarrow> trim sb = trim (shifted sb)"
  by (subst trim.simps) simp

lemma trim_stop:
  "\<not> (int (maxSize sb) < totalSize sb \<and> 1 < length (buffer sb)) \<Longrightarrow> trim sb = sb"
  by (subst trim.simps) auto

lemma retained_shifted:
  "buffer sb \<noteq> [] \<Longrightarrow> retained (shifted sb) = retained sb - int (length (hd (buffer sb)))"
  by (cases "buffer sb") (simp_all add: retained_def)

lemma trim_maxSize: "maxSize (trim sb) = maxSize sb"
proof (induction sb rule: trim.induct)
  case (1 sb)
  show ?case
  proof (cases "int (maxSize sb) < totalSize sb \<and> 1 < length (buffer sb)")
    case True
    have "maxSize (trim (shifted sb)) = maxSize (shifted sb)" by (rule "1.IH" [OF True])
    then show ?thesis by (simp add: trim_step [OF True])
  next
    case False
    then show ?thesis by (simp add: trim_stop)
  qed
qed

lemma trim_total: "totalSize sb = retained sb \<Longrightarrow> totalSize (trim sb) = retained (trim sb)"
proof (induction sb rule: trim.induct)
  case (1 sb)
  show ?case
  proof (cases "int (maxSize sb) < totalSize sb \<and> 1 < length (buffer sb)")
    case True
    then have ne: "buffer sb \<noteq> []" by auto
    have "totalSize (shifted sb) = retained (shifted sb)"
      using retained_shifted [OF ne] "1.prems" by simp
    then have "totalSize (trim (shifted sb)) = retained (trim (shifted sb))"
      by (rule "1.IH" [OF True])
    then show ?thesis by (simp add: trim_step [OF True])
  next
    case False
    then show ?thesis using "1.prems" by (simp add: trim_stop)
  qed
qed

lemma trim_exit: "totalSize (trim sb) \<le> int (maxSize sb) \<or> length (buffer (trim sb)) \<le> 1"
proof (induction sb rule: trim.induct)
  case (1 sb)
  show ?case
  proof (cases "int (maxSize sb) < totalSize sb \<and> 1 < length (buffer sb)")
    case True
    have "totalSize (trim (shifted sb)) \<le> int (maxSize (shifted sb))
            \<or> length (buffer (trim (shifted sb))) \<le> 1"
      by (rule "1.IH" [OF True])
    then show ?thesis by (simp add: trim_step [OF True])
  next
    case False
    then show ?thesis by (auto simp add: trim_stop)
  qed
qed

lemma trim_suffix: "\<exists>k. k \<le> length (buffer sb) - 1 \<and> buffer (trim sb) = drop k (buffer sb)"
proof (induction sb rule: trim.induct)
  case (1 sb)
  show ?case
  proof (cases "int (maxSize sb) < totalSize sb \<and> 1 < length (buffer sb)")
    case True
    from "1.IH" [OF True] obtain k where
      k: "k \<le> length (buffer (shifted sb)) - 1" "buffer (trim (shifted sb)) = drop k (buffer (shifted sb))"
      by blast
    have "Suc k \<le> length (buffer sb) - 1" using k(1) True by simp arith
    moreover have "buffer (trim sb) = drop (Suc k) (buffer sb)"
      using k(2) by (simp add: trim_step [OF True] drop_Suc)
    ultimately show ?thesis by blast
  next
    case False
    then have "0 \<le> length (buffer sb) - 1 \<and> buffer (trim sb) = drop 0 (buffer sb)"
      by (simp add: trim_stop)
    then show ?thesis by blast
  qed
qed

subsection \<open>One call, and a sequence of calls\<close>

lemma write_total: "totalSize sb = retained sb \<Longrightarrow> totalSize (write_sb c sb) = retained (write_sb c sb)"
  unfolding write_sb_def by (rule trim_total) (simp add: retained_def)

lemma clear_total: "totalSize (clear sb) = retained (clear sb)"
  by (simp add: clear_def retained_def)

lemma write_maxSize: "maxSize (write_sb c sb) = maxSize sb"
  by (simp add: write_sb_def trim_maxSize)

lemma applyOp_total: "totalSize sb = retained sb \<Longrightarrow> totalSize (applyOp sb x) = retained (applyOp sb x)"
  by (cases x) (simp_all add: write_total clear_total)

lemma runOps_total: "totalSize sb = retained sb \<Longrightarrow> totalSize (runOps ops sb) = retained (runOps ops sb)"
  unfolding runOps_def by (induction ops arbitrary: sb) (simp_all add: applyOp_total)

lemma retained_contents: "retained sb = int (length (getContents sb))"
  by (simp add: retained_def getContents_def length_concat)

lemma write_exit:
  "totalSize (write_sb c sb) \<le> int (maxSize sb) \<or> length (buffer (write_sb c sb)) \<le> 1"
  using trim_exit [of "sb\<lparr>buffer := buffer sb @ [c], totalSize := totalSize sb + int (length c)\<rparr>"]
  by (simp add: write_sb_def)

lemma write_suffix:
  "\<exists>k. k \<le> length (buffer sb) \<and> buffer (write_sb c sb) = drop k (buffer sb @ [c])"
  using trim_suffix [of "sb\<lparr>buffer := buffer sb @ [c], totalSize := totalSize sb + int (length c)\<rparr>"]
  by (simp add: write_sb_def)

lemma writeAll_snoc: "writeAll (cs @ [c]) sb = write_sb c (writeAll cs sb)"
  by (simp add: writeAll_def)

lemma writeAll_maxSize: "maxSize (writeAll cs sb) = maxSize sb"
  by (induction cs rule: rev_induct) (simp_all add: writeAll_def write_maxSize)

lemma writeAll_total:
  "totalSize sb = retained sb \<Longrightarrow> totalSize (writeAll cs sb) = retained (writeAll cs sb)"
  by (induction cs rule: rev_induct) (simp_all add: writeAll_def write_total)

lemma writeAll_suffix:
  "\<exists>k. k \<le> length cs \<and> buffer (writeAll cs (newScrollbackBuffer m)) = drop k cs"
proof (induction cs rule: rev_induct)
  case Nil
  show ?case by (simp add: writeAll_def newScrollbackBuffer_def)
next
  case (snoc c cs)
  then obtain j where j: "j \<le> length cs" "buffer (writeAll cs (newScrollbackBuffer m)) = drop j cs"
    by blast
  obtain k where k: "k \<le> length (buffer (writeAll cs (newScrollbackBuffer m)))"
      "buffer (write_sb c (writeAll cs (newScrollbackBuffer m)))
         = drop k (buffer (writeAll cs (newScrollbackBuffer m)) @ [c])"
    using write_suffix by blast
  have "k + j \<le> length cs" using k(1) j by simp
  moreover have "buffer (writeAll (cs @ [c]) (newScrollbackBuffer m)) = drop (k + j) (cs @ [c])"
    using k(2) j by (simp add: writeAll_snoc)
  ultimately show ?case by (metis le_SucI length_append_singleton)
qed

lemma writeAll_under_cap:
  "totalSize sb = retained sb \<Longrightarrow>
   retained sb + int (sum_list (map length cs)) \<le> int (maxSize sb) \<Longrightarrow>
   buffer (writeAll cs sb) = buffer sb @ cs"
proof (induction cs arbitrary: sb)
  case Nil
  show ?case by (simp add: writeAll_def)
next
  case (Cons c cs)
  let ?pushed = "sb\<lparr>buffer := buffer sb @ [c], totalSize := totalSize sb + int (length c)\<rparr>"
  have small: "totalSize ?pushed \<le> int (maxSize ?pushed)" using Cons.prems by simp
  have w: "write_sb c sb = ?pushed" unfolding write_sb_def using small by (intro trim_stop) simp
  have t: "totalSize (write_sb c sb) = retained (write_sb c sb)"
    using Cons.prems(1) by (rule write_total)
  have r: "retained (write_sb c sb) = retained sb + int (length c)"
    by (simp add: w retained_def)
  have "buffer (writeAll cs (write_sb c sb)) = buffer (write_sb c sb) @ cs"
    using Cons.prems(2) by (intro Cons.IH [OF t]) (simp add: r write_maxSize)
  then show ?case by (simp add: writeAll_def w)
qed

text \<open>
  Claim C10. After any sequence of \<open>write\<close> and \<open>clear\<close> calls on a fresh buffer, the field
  \<open>totalSize\<close> is the sum of the lengths of the retained chunks, which is the length of what
  \<open>getContents\<close> returns.
\<close>

theorem totalSize_invariant:
  "totalSize (runOps ops (newScrollbackBuffer m)) = retained (runOps ops (newScrollbackBuffer m)) \<and>
   totalSize (runOps ops (newScrollbackBuffer m)) = int (length (getContents (runOps ops (newScrollbackBuffer m))))"
proof -
  have "totalSize (newScrollbackBuffer m) = retained (newScrollbackBuffer m)"
    by (simp add: newScrollbackBuffer_def retained_def)
  then have "totalSize (runOps ops (newScrollbackBuffer m)) = retained (runOps ops (newScrollbackBuffer m))"
    by (rule runOps_total)
  then show ?thesis by (simp add: retained_contents)
qed

text \<open>
  Claim C2. Take any sequence of writes on a fresh buffer with cap \<open>m\<close> and look at the buffer
  after any one of them, the write of \<open>c\<close> that follows the writes of \<open>cs\<close>. The size retained is
  at most the cap, or exactly one chunk is held; it exceeds the cap by at most the length of
  \<open>c\<close>; and the chunks held are the written chunks with some of the oldest dropped whole:
  \<open>drop k\<close> of the sequence written, the chunk \<open>c\<close> always kept.
\<close>

theorem write_bounded:
  "(retained (writeAll (cs @ [c]) (newScrollbackBuffer m)) \<le> int m
      \<or> length (buffer (writeAll (cs @ [c]) (newScrollbackBuffer m))) = 1)
   \<and> retained (writeAll (cs @ [c]) (newScrollbackBuffer m)) \<le> int m + int (length c)
   \<and> totalSize (writeAll (cs @ [c]) (newScrollbackBuffer m))
       = retained (writeAll (cs @ [c]) (newScrollbackBuffer m))
   \<and> (\<exists>k. k \<le> length cs \<and> buffer (writeAll (cs @ [c]) (newScrollbackBuffer m)) = drop k (cs @ [c]))"
proof -
  define sb0 where "sb0 = writeAll cs (newScrollbackBuffer m)"
  define sb1 where "sb1 = writeAll (cs @ [c]) (newScrollbackBuffer m)"
  have step: "sb1 = write_sb c sb0" by (simp add: sb0_def sb1_def writeAll_snoc)
  have cap: "maxSize sb0 = m" by (simp add: sb0_def writeAll_maxSize newScrollbackBuffer_def)
  have fresh: "totalSize (newScrollbackBuffer m) = retained (newScrollbackBuffer m)"
    by (simp add: newScrollbackBuffer_def retained_def)
  have tot: "totalSize sb1 = retained sb1"
    unfolding sb1_def by (rule writeAll_total [OF fresh])
  obtain k where k: "k \<le> length (buffer sb0)" "buffer sb1 = drop k (buffer sb0 @ [c])"
    using write_suffix step by blast
  have len: "length (buffer sb1) \<ge> 1" using k by simp
  have exit: "retained sb1 \<le> int m \<or> length (buffer sb1) \<le> 1"
    using write_exit [of c sb0] step cap tot by simp
  then have a: "retained sb1 \<le> int m \<or> length (buffer sb1) = 1" using len by auto
  have b: "retained sb1 \<le> int m + int (length c)"
  proof (cases "retained sb1 \<le> int m")
    case True
    then show ?thesis by simp
  next
    case False
    with a have "length (buffer sb1) = 1" by simp
    then have "k = length (buffer sb0)" using k by simp
    then have "buffer sb1 = [c]" using k(2) by simp
    then show ?thesis by (simp add: retained_def)
  qed
  obtain j where j: "j \<le> length (cs @ [c]) " "buffer sb1 = drop j (cs @ [c])"
    using writeAll_suffix [of "cs @ [c]" m] sb1_def by blast
  have "j \<le> length cs"
  proof (rule ccontr)
    assume "\<not> j \<le> length cs"
    then have "drop j (cs @ [c]) = []" by simp
    then show False using j(2) len by simp
  qed
  then have d: "\<exists>k. k \<le> length cs \<and> buffer sb1 = drop k (cs @ [c])" using j(2) by blast
  show ?thesis using a b tot d unfolding sb1_def by blast
qed

text \<open>
  Claim C6. When the lengths of the chunks \<open>c1 \<dots> cn\<close> written to a fresh buffer add up to at
  most the cap, the buffer holds exactly these chunks in the order of arrival, and
  \<open>getContents\<close> returns their concatenation.
\<close>

theorem contents_under_cap:
  "sum_list (map length cs) \<le> m \<Longrightarrow>
   buffer (writeAll cs (newScrollbackBuffer m)) = cs \<and>
   getContents (writeAll cs (newScrollbackBuffer m)) = concat cs"
proof -
  assume le: "sum_list (map length cs) \<le> m"
  have "buffer (writeAll cs (newScrollbackBuffer m)) = buffer (newScrollbackBuffer m) @ cs"
    using le by (intro writeAll_under_cap) (simp_all add: newScrollbackBuffer_def retained_def)
  then show ?thesis by (simp add: getContents_def newScrollbackBuffer_def)
qed

theorem contents_under_cap_witness:
  "sum_list (map length [''ab'', ''c'']) \<le> (5::nat) \<and>
   buffer (writeAll [''ab'', ''c''] (newScrollbackBuffer 5)) = [''ab'', ''c''] \<and>
   getContents (writeAll [''ab'', ''c''] (newScrollbackBuffer 5)) = ''abc''"
  using contents_under_cap [of "[''ab'', ''c'']" 5] by simp

section \<open>The session registry\<close>

subsection \<open>The concrete runs, evaluated\<close>

lemma exampleAgent_value:
  "exampleAgent =
     \<lparr>terminalManager = \<lparr>sessions = [(''s1'', 0)], heap = [0 \<mapsto> exampleSession], nextRef = 1\<rparr>,
      socket = True, isConnected = False, reconnectAttempts = 0, heartbeatTimer = False,
      emitted = [TerminalOutput ''s1'' ''hi''], timers = [], connectCalls = 0, rejected = False\<rparr>"
  by (simp add: exampleAgent_def exampleSession_def ptyOnData_def onTerminalSpawn_def spawn_def
      connect_def newAgent_def newTerminalManager_def onManager_def emit_def manager_defs
      orDefault_def Let_def write_sb_def trim_stop newScrollbackBuffer_def defaultMaxSize_def)

lemma exampleAgent_ref: "lookupRef ''s1'' (terminalManager exampleAgent) = Some 0"
  by (simp add: exampleAgent_value lookupRef_def)

lemma exampleAgent_heap: "heap (terminalManager exampleAgent) 0 = Some exampleSession"
  by (simp add: exampleAgent_value)

lemma detachedManager_value:
  "detachedManager =
     \<lparr>sessions = [(''s1'', 0)],
      heap = [0 \<mapsto> exampleSession\<lparr>state := Detached, detachedAt := Some 1000, dataCallbacks := []\<rparr>],
      nextRef = 1\<rparr>"
  by (simp add: detachedManager_def exampleAgent_value detach_def manager_defs)

subsection \<open>The keys of the registry stay distinct\<close>

lemma mapDelete_distinct: "distinct (map fst m) \<Longrightarrow> distinct (map fst (mapDelete sid m))"
  by (simp add: mapDelete_def distinct_map_filter)

lemma spawn_distinct:
  "distinct (map fst (sessions tm)) \<Longrightarrow>
     distinct (map fst (sessions (snd (spawn sid sh c rw idle now ptyFails tm))))"
  by (auto simp add: spawn_def has_def lookupRef_def Let_def map_of_eq_None_iff)

lemma detach_sessions: "sessions (snd (detach now sid tm)) = sessions tm"
  by (simp add: detach_def manager_defs split: option.splits)

lemma reattach_sessions: "sessions (snd (reattach sid tm)) = sessions tm"
  by (simp add: reattach_def manager_defs split: option.splits)

lemma kill_distinct:
  "distinct (map fst (sessions tm)) \<Longrightarrow> distinct (map fst (sessions (snd (kill sid tm))))"
  by (simp add: kill_def sessionKill_def updSession_def mapDelete_distinct split: option.splits)

lemma remove_distinct:
  "distinct (map fst (sessions tm)) \<Longrightarrow> distinct (map fst (sessions (snd (remove_session sid tm))))"
  by (simp add: remove_session_def mapDelete_distinct)

subsection \<open>Detach, reattach and spawn\<close>

text \<open>
  Claim C1. For a session in the registry, \<open>detach\<close> followed at once by \<open>reattach\<close> returns
  the contents of the session's scrollback: what \<open>reattach\<close> would have returned without the
  \<open>detach\<close>. The \<open>detach\<close> leaves the scrollback as it was.
\<close>

theorem detach_reattach_scrollback:
  "get sid tm = Some s \<Longrightarrow>
     fst (reattach sid (snd (detach now sid tm))) = Some (getContents (scrollback s))
     \<and> fst (reattach sid (snd (detach now sid tm))) = fst (reattach sid tm)
     \<and> map_option scrollback (get sid (snd (detach now sid tm))) = Some (scrollback s)"
  by (auto simp add: reattach_def detach_def manager_defs split: option.splits)

theorem detach_reattach_scrollback_witness:
  "get ''s1'' (terminalManager exampleAgent) = Some exampleSession
   \<and> fst (reattach ''s1'' (snd (detach 1000 ''s1'' (terminalManager exampleAgent)))) = Some ''hi''
   \<and> fst (reattach ''s1'' (terminalManager exampleAgent)) = Some ''hi''"
proof -
  have g: "get ''s1'' (terminalManager exampleAgent) = Some exampleSession"
    by (simp add: get_def exampleAgent_ref exampleAgent_heap)
  show ?thesis
    using detach_reattach_scrollback [OF g, of 1000] g
    by (auto simp add: exampleSession_def getContents_def)
qed

text \<open>
  Claim C4. \<open>spawn\<close> with an id that has an entry fails with \<open>DuplicateSession\<close>, and the
  manager is the one it was called on: the registry, and every session object with its state,
  scrollback and process, are unchanged.
\<close>

theorem spawn_duplicate:
  "has sid tm \<Longrightarrow> spawn sid sh c rw idle now ptyFails tm = (Inl (DuplicateSession sid), tm)"
  by (simp add: spawn_def)

theorem spawn_duplicate_witness:
  "has ''s1'' (terminalManager exampleAgent)
   \<and> spawn ''s1'' ''/bin/bash'' 100 40 None 2000 False (terminalManager exampleAgent)
       = (Inl (DuplicateSession ''s1''), terminalManager exampleAgent)"
proof -
  have h: "has ''s1'' (terminalManager exampleAgent)"
    by (simp add: has_def exampleAgent_ref)
  show ?thesis using spawn_duplicate [OF h, of "''/bin/bash''" 100 40 None 2000 False] h by simp
qed

lemma detached_again:
  "state s = Detached \<Longrightarrow> dataCallbacks s = [] \<Longrightarrow>
     s\<lparr>state := Detached, detachedAt := d, dataCallbacks := []\<rparr> = s\<lparr>detachedAt := d\<rparr>"
  by (cases s) simp

text \<open>
  Claim C8, as the code has it. \<open>detach\<close> on a session that is already detached (and so has no
  output callback) returns \<open>true\<close> again and leaves the state, the callback list, the
  scrollback and everything else as they were, except \<open>detachedAt\<close>, which it overwrites with
  the time of the call. \<open>detach\<close> on an absent id returns \<open>false\<close> and changes nothing.
\<close>

theorem detach_twice:
  "(lookupRef sid tm = Some r \<and> heap tm r = Some s \<and> state s = Detached \<and> dataCallbacks s = [] \<longrightarrow>
      detach now sid tm = (True, updSession r (\<lambda>s. s\<lparr>detachedAt := Some now\<rparr>) tm)
      \<and> get sid (snd (detach now sid tm)) = Some (s\<lparr>detachedAt := Some now\<rparr>))
   \<and> (\<not> has sid tm \<longrightarrow> detach now sid tm = (False, tm))"
  by (auto simp add: detach_def manager_defs detached_again)

theorem detach_twice_witness:
  "lookupRef ''s1'' detachedManager = Some 0
   \<and> map_option state (heap detachedManager 0) = Some Detached
   \<and> map_option dataCallbacks (heap detachedManager 0) = Some []
   \<and> fst (detach 2000 ''s1'' detachedManager)
   \<and> map_option state (get ''s1'' (snd (detach 2000 ''s1'' detachedManager))) = Some Detached
   \<and> map_option detachedAt (get ''s1'' (snd (detach 2000 ''s1'' detachedManager))) = Some (Some 2000)
   \<and> \<not> has ''s2'' detachedManager
   \<and> detach 2000 ''s2'' detachedManager = (False, detachedManager)"
proof -
  let ?s = "exampleSession\<lparr>state := Detached, detachedAt := Some 1000, dataCallbacks := []\<rparr>"
  have a: "lookupRef ''s1'' detachedManager = Some 0"
    and b: "heap detachedManager 0 = Some ?s"
    and c: "\<not> has ''s2'' detachedManager"
    by (simp_all add: detachedManager_value lookupRef_def has_def)
  show ?thesis
    using detach_twice [of "''s1''" detachedManager 0 ?s 2000]
      detach_twice [of "''s2''" detachedManager 0 ?s 2000] a b c
    by (auto simp add: exampleSession_def)
qed

text \<open>
  So a second \<open>detach\<close> is not without effect: the session detached at 1000 and detached
  again at 2000 has \<open>detachedAt = 2000\<close>.
\<close>

theorem detach_idempotent_counterexample:
  "map_option state (get ''s1'' detachedManager) = Some Detached
   \<and> map_option detachedAt (get ''s1'' detachedManager) = Some (Some 1000)
   \<and> map_option detachedAt (get ''s1'' (snd (detach 2000 ''s1'' detachedManager))) = Some (Some 2000)
   \<and> snd (detach 2000 ''s1'' detachedManager) \<noteq> detachedManager"
proof -
  have a: "map_option detachedAt (get ''s1'' detachedManager) = Some (Some 1000)"
    and b: "map_option detachedAt (get ''s1'' (snd (detach 2000 ''s1'' detachedManager))) = Some (Some 2000)"
    and c: "map_option state (get ''s1'' detachedManager) = Some Detached"
    by (simp_all add: detachedManager_value detach_def manager_defs)
  from a b have "snd (detach 2000 ''s1'' detachedManager) \<noteq> detachedManager" by auto
  with a b c show ?thesis by blast
qed

subsection \<open>The idle reaper\<close>

lemma cleanupBody_sessions:
  "sessions (cleanupBody now sid r tm) =
     (if expiredRef now tm r then mapDelete sid (sessions tm) else sessions tm)"
  by (simp add: cleanupBody_def expiredRef_def sessionKill_def updSession_def split: option.splits)

lemma cleanupBody_expiredRef: "expiredRef now (cleanupBody now sid r tm) r' = expiredRef now tm r'"
  by (simp add: cleanupBody_def expiredRef_def sessionKill_def updSession_def idleExpired_def
      split: option.splits)

lemma doomed_Cons:
  "doomed now tm ((sid, r) # es) k = ((k = sid \<and> expiredRef now tm r) \<or> doomed now tm es k)"
  by (auto simp add: doomed_def)

lemma doomed_cleanupBody: "doomed now (cleanupBody now sid r tm) es k = doomed now tm es k"
  by (simp add: doomed_def cleanupBody_expiredRef)

lemma cleanupLoop_sessions:
  "sessions (cleanupLoop now es tm) = filter (\<lambda>(k, r). \<not> doomed now tm es k) (sessions tm)"
proof (induction es arbitrary: tm)
  case Nil
  show ?case by (simp add: doomed_def)
next
  case (Cons e es)
  obtain sid r where e: "e = (sid, r)" by (cases e)
  have "sessions (cleanupLoop now (e # es) tm) =
          filter (\<lambda>(k, r'). \<not> doomed now tm es k) (sessions (cleanupBody now sid r tm))"
    by (simp add: e Cons.IH doomed_cleanupBody)
  also have "\<dots> = filter (\<lambda>(k, r'). \<not> doomed now tm (e # es) k) (sessions tm)"
    by (auto simp add: cleanupBody_sessions mapDelete_def e doomed_Cons intro!: filter_cong)
  finally show ?case .
qed

lemma cleanup_distinct:
  "distinct (map fst (sessions tm)) \<Longrightarrow> distinct (map fst (sessions (cleanupIdleSessions now tm)))"
  by (simp add: cleanupIdleSessions_def cleanupLoop_sessions distinct_map_filter)

lemma map_of_filter_keys:
  "map_of (filter (\<lambda>(k, r). \<not> P k) m) sid = (if P sid then None else map_of m sid)"
  by (induction m) auto

lemma lookupRef_cleanup:
  assumes "distinct (map fst (sessions tm))"
  shows "lookupRef sid (cleanupIdleSessions now tm) =
           (case lookupRef sid tm of
              None \<Rightarrow> None
            | Some r \<Rightarrow> if expiredRef now tm r then None else Some r)"
proof (cases "lookupRef sid tm")
  case None
  then show ?thesis
    by (simp add: lookupRef_def cleanupIdleSessions_def cleanupLoop_sessions map_of_filter_keys)
next
  case (Some r)
  then have mem: "(sid, r) \<in> set (sessions tm)" by (simp add: lookupRef_def map_of_SomeD)
  have "doomed now tm (sessions tm) sid \<longleftrightarrow> expiredRef now tm r"
  proof
    assume "doomed now tm (sessions tm) sid"
    then obtain r' where r': "(sid, r') \<in> set (sessions tm)" "expiredRef now tm r'"
      by (auto simp add: doomed_def)
    have "r' = r" using assms mem r'(1) by (meson eq_key_imp_eq_value)
    then show "expiredRef now tm r" using r'(2) by simp
  next
    assume "expiredRef now tm r"
    then show "doomed now tm (sessions tm) sid" using mem by (auto simp add: doomed_def)
  qed
  then show ?thesis using Some
    by (simp add: lookupRef_def cleanupIdleSessions_def cleanupLoop_sessions map_of_filter_keys)
qed

lemma idleExpired_specExpired: "detachedAt s \<noteq> Some 0 \<Longrightarrow> idleExpired now s = specExpired now s"
  by (auto simp add: idleExpired_def specExpired_def split: option.splits)

lemma reaper_removes_idleExpired:
  "distinct (map fst (sessions tm)) \<Longrightarrow> get sid tm = Some s \<Longrightarrow>
     has sid (cleanupIdleSessions now tm) = (\<not> idleExpired now s)"
  by (auto simp add: has_def get_def lookupRef_cleanup expiredRef_def split: option.splits)

lemma reaper_keeps_absent:
  "distinct (map fst (sessions tm)) \<Longrightarrow> \<not> has sid tm \<Longrightarrow> \<not> has sid (cleanupIdleSessions now tm)"
  by (simp add: has_def lookupRef_cleanup)

text \<open>
  Claim C5. A tick of the reaper at time \<open>now\<close> removes exactly the sessions that are detached,
  have a positive \<open>idleTimeoutMs\<close> and for which \<open>now - detachedAt > idleTimeoutMs\<close>: a
  session of the registry is still there after the tick if and only if it does not satisfy
  the three conditions, and an absent id stays absent. A session with \<open>idleTimeoutMs = 0\<close>
  stays however long it has been detached, and an attached session stays. The registry is a
  \<open>Map\<close>, whose ids are distinct, and the \<open>detachedAt\<close> of the session is a reading of the
  clock, which is not 0; both hold in every state a run of the agent reaches
  (\<open>wellFormed_reachable\<close>, \<open>stamped_reachable\<close> below).
\<close>

theorem reaper_removes_exactly:
  "distinct (map fst (sessions tm)) \<Longrightarrow>
     (get sid tm = Some s \<longrightarrow>
        (detachedAt s \<noteq> Some 0 \<longrightarrow>
           has sid (cleanupIdleSessions now tm) =
             (\<not> (state s = Detached \<and> idleTimeoutMs s > 0 \<and>
                  (\<exists>d. detachedAt s = Some d \<and> now - d > idleTimeoutMs s))))
        \<and> (idleTimeoutMs s = 0 \<longrightarrow> has sid (cleanupIdleSessions now tm))
        \<and> (state s = Attached \<longrightarrow> has sid (cleanupIdleSessions now tm)))
     \<and> (\<not> has sid tm \<longrightarrow> \<not> has sid (cleanupIdleSessions now tm))"
proof -
  assume d: "distinct (map fst (sessions tm))"
  have absent: "\<not> has sid tm \<longrightarrow> \<not> has sid (cleanupIdleSessions now tm)"
    using reaper_keeps_absent [OF d] by blast
  have present: "(detachedAt s \<noteq> Some 0 \<longrightarrow>
           has sid (cleanupIdleSessions now tm) =
             (\<not> (state s = Detached \<and> idleTimeoutMs s > 0 \<and>
                  (\<exists>d. detachedAt s = Some d \<and> now - d > idleTimeoutMs s))))
        \<and> (idleTimeoutMs s = 0 \<longrightarrow> has sid (cleanupIdleSessions now tm))
        \<and> (state s = Attached \<longrightarrow> has sid (cleanupIdleSessions now tm))"
    if g: "get sid tm = Some s"
    using reaper_removes_idleExpired [OF d g, of now]
    by (auto simp add: idleExpired_def split: option.splits)
  show ?thesis using absent present by blast
qed

theorem reaper_removes_exactly_witness:
  "distinct (map fst (sessions detachedManager))
   \<and> get ''s1'' detachedManager
       = Some (exampleSession\<lparr>state := Detached, detachedAt := Some 1000, dataCallbacks := []\<rparr>)
   \<and> has ''s1'' (cleanupIdleSessions 5000 detachedManager)
   \<and> \<not> has ''s1'' (cleanupIdleSessions 7000 detachedManager)
   \<and> \<not> has ''s2'' detachedManager
   \<and> \<not> has ''s2'' (cleanupIdleSessions 7000 detachedManager)"
proof -
  let ?s = "exampleSession\<lparr>state := Detached, detachedAt := Some 1000, dataCallbacks := []\<rparr>"
  have d: "distinct (map fst (sessions detachedManager))"
    and g: "get ''s1'' detachedManager = Some ?s"
    and n: "\<not> has ''s2'' detachedManager"
    by (simp_all add: detachedManager_value get_def has_def lookupRef_def)
  show ?thesis
    using reaper_removes_exactly [OF d, of "''s1''" ?s 5000]
      reaper_removes_exactly [OF d, of "''s1''" ?s 7000]
      reaper_removes_exactly [OF d, of "''s2''" ?s 7000] d g n
    by (simp add: exampleSession_def)
qed

text \<open>
  What the hypothesis on \<open>detachedAt\<close> excludes: the test \<open>session.detachedAt &&\<close> of the
  loop, there to exclude \<open>null\<close>, is also false for 0, so a session detached while the clock
  is held at 0 would stay.
\<close>

lemma reaper_clock_zero:
  "map_option (specExpired 6000) (get ''s1'' epochManager) = Some True
   \<and> has ''s1'' (cleanupIdleSessions 6000 epochManager)"
  by (simp add: epochManager_def spawn_def detach_def newTerminalManager_def cleanupIdleSessions_def
      cleanupBody_def idleExpired_def specExpired_def manager_defs Let_def)

section \<open>Callbacks and the socket\<close>

lemma foldl_runDataCallback:
  "foldl (runDataCallback d) a cbs =
     (if socket a then a\<lparr>emitted := emitted a @ outputsOf d cbs\<rparr> else a)"
proof (induction cbs arbitrary: a)
  case Nil
  show ?case by (simp add: outputsOf_def)
next
  case (Cons cb cbs)
  show ?case by (cases cb) (simp add: Cons.IH emit_def outputsOf_def)
qed

lemma foldl_runExitCallback:
  "emitted (foldl (runExitCallback c) a cbs) = emitted a @ (if socket a then closedOf c cbs else [])
   \<and> socket (foldl (runExitCallback c) a cbs) = socket a
   \<and> heap (terminalManager (foldl (runExitCallback c) a cbs)) = heap (terminalManager a)"
proof (induction cbs arbitrary: a)
  case Nil
  show ?case by (simp add: closedOf_def)
next
  case (Cons cb cbs)
  show ?case
    by (cases cb) (simp add: Cons.IH emit_def closedOf_def onManager_def remove_session_def)
qed

lemma ptyOnData_emitted:
  "heap (terminalManager a) r = Some s \<Longrightarrow>
     emitted (ptyOnData r d a) = emitted a @ (if socket a then outputsOf d (dataCallbacks s) else [])"
  by (simp add: ptyOnData_def foldl_runDataCallback onManager_def)

lemma ptyOnExit_emitted:
  "heap (terminalManager a) r = Some s \<Longrightarrow>
     emitted (ptyOnExit r c a) = emitted a @ (if socket a then closedOf c (exitCallbacks s) else [])"
  by (simp add: ptyOnExit_def foldl_runExitCallback)

lemma reattach_handler_once:
  assumes "lookupRef sid (terminalManager a) = Some r" and "heap (terminalManager a) r = Some s"
  shows "map_option dataCallbacks (heap (terminalManager (onTerminalReattach sid c rw a)) r)
           = Some [ForwardOutput sid]"
    and "lookupRef sid (terminalManager (onTerminalReattach sid c rw a)) = Some r"
    and "socket (onTerminalReattach sid c rw a) = socket a"
  using assms
  by (auto simp add: onTerminalReattach_def reattach_def onManager_def emit_def manager_defs Let_def
      split: option.splits)

text \<open>
  Claim C3. After the \<open>terminal:reattach\<close> handler has run for a session of the registry,
  whatever callbacks were registered before, the session has exactly one output callback, the
  one forwarding to the socket; the same holds after the handler has run twice. A chunk the
  PTY then produces is sent on the socket exactly once.
\<close>

theorem reattach_single_callback:
  assumes "lookupRef sid (terminalManager a) = Some r" and "heap (terminalManager a) r = Some s"
  shows "map_option dataCallbacks (heap (terminalManager (onTerminalReattach sid c rw a)) r)
           = Some [ForwardOutput sid]
   \<and> map_option dataCallbacks
        (heap (terminalManager (onTerminalReattach sid c' rw' (onTerminalReattach sid c rw a))) r)
           = Some [ForwardOutput sid]
   \<and> (socket a \<longrightarrow>
        emitted (ptyOnData r d (onTerminalReattach sid c rw a))
          = emitted (onTerminalReattach sid c rw a) @ [TerminalOutput sid d]
      \<and> emitted (ptyOnData r d (onTerminalReattach sid c' rw' (onTerminalReattach sid c rw a)))
          = emitted (onTerminalReattach sid c' rw' (onTerminalReattach sid c rw a))
              @ [TerminalOutput sid d])"
proof -
  let ?a1 = "onTerminalReattach sid c rw a"
  let ?a2 = "onTerminalReattach sid c' rw' ?a1"
  have cb1: "map_option dataCallbacks (heap (terminalManager ?a1) r) = Some [ForwardOutput sid]"
    and ref1: "lookupRef sid (terminalManager ?a1) = Some r"
    and sock1: "socket ?a1 = socket a"
    using reattach_handler_once [OF assms] by blast+
  from cb1 obtain s1 where s1: "heap (terminalManager ?a1) r = Some s1"
    "dataCallbacks s1 = [ForwardOutput sid]" by auto
  have cb2: "map_option dataCallbacks (heap (terminalManager ?a2) r) = Some [ForwardOutput sid]"
    and sock2: "socket ?a2 = socket ?a1"
    using reattach_handler_once [OF ref1 s1(1)] by blast+
  from cb2 obtain s2 where s2: "heap (terminalManager ?a2) r = Some s2"
    "dataCallbacks s2 = [ForwardOutput sid]" by auto
  have e1: "socket a \<Longrightarrow> emitted (ptyOnData r d ?a1) = emitted ?a1 @ [TerminalOutput sid d]"
    using ptyOnData_emitted [OF s1(1)] s1(2) sock1 by (simp add: outputsOf_def)
  have e2: "socket a \<Longrightarrow> emitted (ptyOnData r d ?a2) = emitted ?a2 @ [TerminalOutput sid d]"
    using ptyOnData_emitted [OF s2(1)] s2(2) sock1 sock2 by (simp add: outputsOf_def)
  show ?thesis using cb1 cb2 e1 e2 by blast
qed

theorem reattach_single_callback_witness:
  "lookupRef ''s1'' (terminalManager exampleAgent) = Some 0
   \<and> heap (terminalManager exampleAgent) 0 = Some exampleSession
   \<and> socket exampleAgent
   \<and> map_option dataCallbacks
        (heap (terminalManager
                 (onTerminalReattach ''s1'' None None
                    (onTerminalReattach ''s1'' (Some 100) (Some 40) exampleAgent))) 0)
       = Some [ForwardOutput ''s1'']
   \<and> emitted (ptyOnData 0 ''x''
        (onTerminalReattach ''s1'' None None
           (onTerminalReattach ''s1'' (Some 100) (Some 40) exampleAgent)))
       = emitted (onTerminalReattach ''s1'' None None
           (onTerminalReattach ''s1'' (Some 100) (Some 40) exampleAgent)) @ [TerminalOutput ''s1'' ''x'']"
proof -
  have s: "socket exampleAgent" by (simp add: exampleAgent_value)
  show ?thesis
    using reattach_single_callback [OF exampleAgent_ref exampleAgent_heap,
        of "Some 100" "Some 40" None None "''x''"] s exampleAgent_ref exampleAgent_heap
    by simp
qed

text \<open>
  Claim C7, as the code has it. For a session in the registry \<open>kill\<close> returns \<open>true\<close>, marks
  the process killed and removes the entry: \<open>get\<close> then returns nothing and \<open>has\<close> returns
  \<open>false\<close>. On an absent id it returns \<open>false\<close> and changes nothing. The callbacks of the
  killed session are not unregistered: output or an exit that its PTY still reports after the
  \<open>kill\<close> is sent on the socket once for every callback registered.
\<close>

theorem kill_removes_entry:
  "(\<forall>r s. lookupRef sid (terminalManager a) = Some r \<and> heap (terminalManager a) r = Some s \<longrightarrow>
      fst (kill sid (terminalManager a))
      \<and> get sid (snd (kill sid (terminalManager a))) = None
      \<and> \<not> has sid (snd (kill sid (terminalManager a)))
      \<and> heap (snd (kill sid (terminalManager a))) r = Some (s\<lparr>ptyKilled := True\<rparr>)
      \<and> emitted (ptyOnData r d (onTerminalKill sid a))
          = emitted a @ (if socket a then outputsOf d (dataCallbacks s) else [])
      \<and> emitted (ptyOnExit r c (onTerminalKill sid a))
          = emitted a @ (if socket a then closedOf c (exitCallbacks s) else []))
   \<and> (\<not> has sid (terminalManager a) \<longrightarrow> kill sid (terminalManager a) = (False, terminalManager a))"
proof -
  have absent: "\<not> has sid (terminalManager a) \<Longrightarrow> kill sid (terminalManager a) = (False, terminalManager a)"
    by (simp add: kill_def has_def)
  have gone: "map_of (mapDelete sid m) sid = None" for m
    by (induction m) (auto simp add: mapDelete_def)
  have present: "fst (kill sid (terminalManager a))
      \<and> get sid (snd (kill sid (terminalManager a))) = None
      \<and> \<not> has sid (snd (kill sid (terminalManager a)))
      \<and> heap (snd (kill sid (terminalManager a))) r = Some (s\<lparr>ptyKilled := True\<rparr>)
      \<and> emitted (ptyOnData r d (onTerminalKill sid a))
          = emitted a @ (if socket a then outputsOf d (dataCallbacks s) else [])
      \<and> emitted (ptyOnExit r c (onTerminalKill sid a))
          = emitted a @ (if socket a then closedOf c (exitCallbacks s) else [])"
    if ref: "lookupRef sid (terminalManager a) = Some r" and obj: "heap (terminalManager a) r = Some s"
    for r s
  proof -
    have k: "kill sid (terminalManager a) =
        (True, (sessionKill r (terminalManager a))
                 \<lparr>sessions := mapDelete sid (sessions (sessionKill r (terminalManager a)))\<rparr>)"
      using ref by (simp add: kill_def)
    have h: "heap (terminalManager (onTerminalKill sid a)) r = Some (s\<lparr>ptyKilled := True\<rparr>)"
      using obj by (simp add: onTerminalKill_def onManager_def k sessionKill_def updSession_def)
    have e: "emitted (onTerminalKill sid a) = emitted a" "socket (onTerminalKill sid a) = socket a"
      by (simp_all add: onTerminalKill_def onManager_def)
    show ?thesis
      using obj ptyOnData_emitted [OF h, of d] ptyOnExit_emitted [OF h, of c] e
      by (simp add: k get_def has_def lookupRef_def gone sessionKill_def updSession_def)
  qed
  show ?thesis using absent present by blast
qed

theorem kill_removes_entry_witness:
  "lookupRef ''s1'' (terminalManager exampleAgent) = Some 0
   \<and> heap (terminalManager exampleAgent) 0 = Some exampleSession
   \<and> fst (kill ''s1'' (terminalManager exampleAgent))
   \<and> get ''s1'' (snd (kill ''s1'' (terminalManager exampleAgent))) = None
   \<and> \<not> has ''s1'' (snd (kill ''s1'' (terminalManager exampleAgent)))
   \<and> emitted (ptyOnExit 0 0 (onTerminalKill ''s1'' exampleAgent))
       = [TerminalOutput ''s1'' ''hi'', TerminalClosed ''s1'' 0]
   \<and> \<not> has ''s2'' (terminalManager exampleAgent)
   \<and> kill ''s2'' (terminalManager exampleAgent) = (False, terminalManager exampleAgent)"
proof -
  have absent: "\<not> has ''s2'' (terminalManager exampleAgent)"
    by (simp add: exampleAgent_value has_def lookupRef_def)
  have e: "emitted exampleAgent = [TerminalOutput ''s1'' ''hi'']" "socket exampleAgent"
    by (simp_all add: exampleAgent_value)
  show ?thesis
    using kill_removes_entry [of "''s1''" exampleAgent "''x''" 0]
      kill_removes_entry [of "''s2''" exampleAgent "''x''" 0]
      exampleAgent_ref exampleAgent_heap absent e
    by (simp add: closedOf_def exampleSession_def)
qed

text \<open>
  So callbacks do fire after \<open>kill\<close>: when the killed process of \<open>s1\<close> reports its exit,
  \<open>terminal:closed\<close> is sent, and output still pending is forwarded as \<open>terminal:output\<close>.
\<close>

theorem kill_silences_callbacks_counterexample:
  "has ''s1'' (terminalManager exampleAgent)
   \<and> \<not> has ''s1'' (terminalManager (onTerminalKill ''s1'' exampleAgent))
   \<and> emitted (ptyOnExit 0 0 (onTerminalKill ''s1'' exampleAgent))
       = emitted (onTerminalKill ''s1'' exampleAgent) @ [TerminalClosed ''s1'' 0]
   \<and> emitted (ptyOnData 0 ''bye'' (onTerminalKill ''s1'' exampleAgent))
       = emitted (onTerminalKill ''s1'' exampleAgent) @ [TerminalOutput ''s1'' ''bye'']"
  by (simp add: exampleAgent_value exampleSession_def onTerminalKill_def kill_def onManager_def
      ptyOnExit_def ptyOnData_def emit_def remove_session_def manager_defs)

section \<open>Connection events\<close>

lemma handleEvent_socket: "socket (handleEvent a e) = socket a"
  by (cases e)
    (simp_all add: onConnect_def onConnectError_def onDisconnect_def onReconnect_def
      startHeartbeat_def stopHeartbeat_def sendSystemInfo_def emit_def Let_def)

lemma handleEvent_systemInfos:
  "socket a \<Longrightarrow>
     systemInfosSent (handleEvent a e) =
       systemInfosSent a + connectedEntries [e] + reconnectEvents [e]"
  by (cases e)
    (simp_all add: systemInfosSent_def connectedEntries_def reconnectEvents_def onConnect_def
      onConnectError_def onDisconnect_def onReconnect_def startHeartbeat_def stopHeartbeat_def
      sendSystemInfo_def emit_def Let_def)

lemma connectedEntries_Cons: "connectedEntries (e # evs) = connectedEntries [e] + connectedEntries evs"
  by (simp add: connectedEntries_def)

lemma reconnectEvents_Cons: "reconnectEvents (e # evs) = reconnectEvents [e] + reconnectEvents evs"
  by (simp add: reconnectEvents_def)

lemma runEvents_systemInfos:
  "socket a \<Longrightarrow>
     systemInfosSent (runEvents evs a) = systemInfosSent a + connectedEntries evs + reconnectEvents evs"
proof (induction evs arbitrary: a)
  case Nil
  show ?case by (simp add: runEvents_def connectedEntries_def reconnectEvents_def)
next
  case (Cons e evs)
  have "socket (handleEvent a e)" using Cons.prems by (simp add: handleEvent_socket)
  then have "systemInfosSent (runEvents evs (handleEvent a e)) =
               systemInfosSent (handleEvent a e) + connectedEntries evs + reconnectEvents evs"
    by (rule Cons.IH)
  moreover have "runEvents (e # evs) a = runEvents evs (handleEvent a e)"
    by (simp add: runEvents_def)
  ultimately show ?case
    using handleEvent_systemInfos [OF Cons.prems, of e]
      connectedEntries_Cons [of e evs] reconnectEvents_Cons [of e evs]
    by simp
qed

lemma runEvents_snoc: "runEvents (evs @ [e]) a = handleEvent (runEvents evs a) e"
  by (simp add: runEvents_def)

lemma runEvents_socket: "socket (runEvents evs a) = socket a"
  unfolding runEvents_def by (induction evs arbitrary: a) (simp_all add: handleEvent_socket)

text \<open>
  Claim C9. The entry into the connected state is the \<open>connect\<close> handler, and while the socket
  exists it sends exactly one \<open>system:info\<close>. Over any sequence of events that the socket
  delivers, the number of announcements sent is the number of entries into the connected
  state, and one more entry adds exactly one announcement: each connection and each
  reconnection is announced once. The socket delivers no \<open>reconnect\<close> event: in the
  socket.io client that has the named import \<open>io\<close> and the \<open>auth\<close> option used in
  \<open>connect\<close> (version 3 and later), \<open>reconnect\<close> is an event of the Manager and does not
  reach a listener registered with \<open>this.socket.on\<close>.
\<close>

theorem system_info_once:
  "socket a \<Longrightarrow> reconnectEvents evs = 0 \<Longrightarrow>
     emitted (onConnect a) = emitted a @ [SystemInfo]
     \<and> isConnected (onConnect a)
     \<and> systemInfosSent (runEvents evs a) = systemInfosSent a + connectedEntries evs
     \<and> systemInfosSent (runEvents (evs @ [EvConnect]) a) = Suc (systemInfosSent (runEvents evs a))"
proof -
  assume s: "socket a" and n: "reconnectEvents evs = 0"
  have one: "emitted (onConnect a) = emitted a @ [SystemInfo] \<and> isConnected (onConnect a)"
    using s
    by (simp add: onConnect_def startHeartbeat_def stopHeartbeat_def sendSystemInfo_def emit_def)
  have total: "systemInfosSent (runEvents evs a) = systemInfosSent a + connectedEntries evs"
    using runEvents_systemInfos [OF s, of evs] n by simp
  have "socket (runEvents evs a)" using s by (simp add: runEvents_socket)
  then have "systemInfosSent (handleEvent (runEvents evs a) EvConnect)
               = Suc (systemInfosSent (runEvents evs a))"
    using handleEvent_systemInfos [of "runEvents evs a" EvConnect]
    by (simp add: connectedEntries_def reconnectEvents_def)
  then have step: "systemInfosSent (runEvents (evs @ [EvConnect]) a) = Suc (systemInfosSent (runEvents evs a))"
    by (simp add: runEvents_snoc)
  show ?thesis using one total step by blast
qed

theorem system_info_once_witness:
  "socket (connect newAgent)
   \<and> reconnectEvents [EvConnect, EvDisconnect ''io server disconnect'', EvConnect] = 0
   \<and> emitted (onConnect (connect newAgent)) = [SystemInfo]
   \<and> systemInfosSent
        (runEvents [EvConnect, EvDisconnect ''io server disconnect'', EvConnect] (connect newAgent)) = 2"
proof -
  have s: "socket (connect newAgent)" "emitted (connect newAgent) = []"
    by (simp_all add: connect_def newAgent_def)
  have n: "reconnectEvents [EvConnect, EvDisconnect ''io server disconnect'', EvConnect] = 0"
    by (simp add: reconnectEvents_def)
  show ?thesis
    using system_info_once [OF s(1) n] s n
    by (simp add: systemInfosSent_def connectedEntries_def)
qed

section \<open>The states a run reaches\<close>

text \<open>
  The hypotheses used above on the registry (distinct ids) and on a detached session (no
  output callback) hold in every state reached from the start of the agent.
\<close>

lemma wellFormed_new: "wellFormed newTerminalManager"
  by (simp add: wellFormed_def newTerminalManager_def)

lemma wellFormed_updSession:
  "wellFormed tm \<Longrightarrow> (\<And>s. quiet s \<Longrightarrow> quiet (f s)) \<Longrightarrow> wellFormed (updSession r f tm)"
  by (auto simp add: wellFormed_def updSession_def)

lemma wellFormed_delete:
  "wellFormed tm \<Longrightarrow> wellFormed (tm\<lparr>sessions := mapDelete sid (sessions tm)\<rparr>)"
  by (auto simp add: wellFormed_def mapDelete_def distinct_map_filter)

lemma wellFormed_spawn:
  "wellFormed tm \<Longrightarrow> wellFormed (snd (spawn sid sh c rw idle now ptyFails tm))"
  by (auto simp add: wellFormed_def spawn_def has_def lookupRef_def Let_def map_of_eq_None_iff quiet_def)

lemma wellFormed_detach: "wellFormed tm \<Longrightarrow> wellFormed (snd (detach now sid tm))"
  by (auto simp add: wellFormed_def detach_def manager_defs quiet_def split: option.splits if_splits)

lemma wellFormed_reattach: "wellFormed tm \<Longrightarrow> wellFormed (snd (reattach sid tm))"
  by (auto simp add: reattach_def quiet_def split: option.splits intro!: wellFormed_updSession)

lemma wellFormed_kill: "wellFormed tm \<Longrightarrow> wellFormed (snd (kill sid tm))"
  by (auto simp add: kill_def sessionKill_def quiet_def split: option.splits
      intro!: wellFormed_updSession wellFormed_delete)

lemma wellFormed_remove: "wellFormed tm \<Longrightarrow> wellFormed (snd (remove_session sid tm))"
  by (simp add: remove_session_def wellFormed_delete)

lemma wellFormed_cleanupBody: "wellFormed tm \<Longrightarrow> wellFormed (cleanupBody now sid r tm)"
  by (auto simp add: cleanupBody_def sessionKill_def quiet_def split: option.splits
      intro!: wellFormed_updSession wellFormed_delete)

lemma wellFormed_cleanupLoop: "wellFormed tm \<Longrightarrow> wellFormed (cleanupLoop now es tm)"
  by (induction es arbitrary: tm) (auto simp add: wellFormed_cleanupBody)

lemma wellFormed_cleanup: "wellFormed tm \<Longrightarrow> wellFormed (cleanupIdleSessions now tm)"
  by (simp add: cleanupIdleSessions_def wellFormed_cleanupLoop)

lemma foldl_runDataCallback_manager:
  "terminalManager (foldl (runDataCallback d) a cbs) = terminalManager a"
  by (simp add: foldl_runDataCallback)

lemma foldl_runExitCallback_wellFormed:
  "wellFormed (terminalManager a) \<Longrightarrow> wellFormed (terminalManager (foldl (runExitCallback c) a cbs))"
proof (induction cbs arbitrary: a)
  case Nil
  then show ?case by simp
next
  case (Cons cb cbs)
  have "wellFormed (terminalManager (runExitCallback c a cb))"
    using Cons.prems by (cases cb) (simp add: onManager_def emit_def wellFormed_remove)
  then show ?case by (simp add: Cons.IH)
qed

lemma handleEvent_manager: "terminalManager (handleEvent a e) = terminalManager a"
  by (cases e)
    (simp_all add: onConnect_def onConnectError_def onDisconnect_def onReconnect_def
      startHeartbeat_def stopHeartbeat_def sendSystemInfo_def emit_def Let_def)

lemma ptyOnData_session:
  "heap (terminalManager a) r = Some s \<Longrightarrow>
     heap (terminalManager (ptyOnData r d a)) r = Some (s\<lparr>scrollback := write_sb d (scrollback s)\<rparr>)"
  by (simp add: ptyOnData_def foldl_runDataCallback_manager onManager_def updSession_def)

lemma wellFormed_onTerminalSpawn:
  assumes "wellFormed (terminalManager a)"
  shows "wellFormed (terminalManager (onTerminalSpawn sid sh c rw idle now ptyFails a))"
proof -
  let ?res = "spawn sid sh (orDefault 80 c) (orDefault 24 rw) idle now ptyFails (terminalManager a)"
  have wf: "wellFormed (snd ?res)" using assms by (rule wellFormed_spawn)
  show ?thesis
  proof (cases "fst ?res")
    case (Inl e)
    then show ?thesis using wf
      by (cases ?res) (simp add: onTerminalSpawn_def emit_def)
  next
    case (Inr r)
    then obtain s where s: "heap (snd ?res) r = Some s" "state s = Attached"
      by (auto simp add: spawn_def Let_def split: if_splits)
    have "wellFormed (sessionOnExit r (ForwardClosed sid) (sessionOnData r (ForwardOutput sid) (snd ?res)))"
      using wf s by (auto simp add: wellFormed_def manager_defs quiet_def split: if_splits)
    then show ?thesis using Inr
      by (cases ?res) (simp add: onTerminalSpawn_def)
  qed
qed

lemma wellFormed_onTerminalReattach:
  assumes "wellFormed (terminalManager a)"
  shows "wellFormed (terminalManager (onTerminalReattach sid c rw a))"
proof (cases "lookupRef sid (terminalManager a)")
  case None
  then show ?thesis using assms by (simp add: onTerminalReattach_def reattach_def emit_def)
next
  case (Some r)
  show ?thesis
  proof (cases "heap (terminalManager a) r")
    case None
    then show ?thesis using assms Some by (simp add: onTerminalReattach_def reattach_def emit_def)
  next
    case (Some s)
    then show ?thesis using assms \<open>lookupRef sid (terminalManager a) = Some r\<close>
      by (auto simp add: onTerminalReattach_def reattach_def emit_def onManager_def Let_def
          wellFormed_def manager_defs quiet_def split: option.splits if_splits)
  qed
qed

lemma wellFormed_step: "wellFormed (terminalManager a) \<Longrightarrow> wellFormed (terminalManager (agentStep a ev))"
proof (cases ev)
  case (TerminalSpawn sid sh c rw idle now ptyFails)
  assume "wellFormed (terminalManager a)"
  then show ?thesis by (simp add: TerminalSpawn wellFormed_onTerminalSpawn)
next
  case (TerminalDetach now sid)
  assume "wellFormed (terminalManager a)"
  then show ?thesis by (simp add: TerminalDetach onTerminalDetach_def onManager_def wellFormed_detach)
next
  case (TerminalReattach sid c rw)
  assume "wellFormed (terminalManager a)"
  then show ?thesis by (simp add: TerminalReattach wellFormed_onTerminalReattach)
next
  case (TerminalKill sid)
  assume "wellFormed (terminalManager a)"
  then show ?thesis by (simp add: TerminalKill onTerminalKill_def onManager_def wellFormed_kill)
next
  case (PtyData r d)
  assume "wellFormed (terminalManager a)"
  then show ?thesis
    by (auto simp add: PtyData ptyOnData_def foldl_runDataCallback_manager onManager_def quiet_def
        split: option.splits intro!: wellFormed_updSession)
next
  case (PtyExit r c)
  assume "wellFormed (terminalManager a)"
  then show ?thesis
    by (simp add: PtyExit ptyOnExit_def foldl_runExitCallback_wellFormed split: option.splits)
next
  case (IdleTick now)
  assume "wellFormed (terminalManager a)"
  then show ?thesis by (simp add: IdleTick onManager_def wellFormed_cleanup)
next
  case (SocketEvent e)
  assume "wellFormed (terminalManager a)"
  then show ?thesis by (simp add: SocketEvent handleEvent_manager)
qed

lemma wellFormed_run:
  "wellFormed (terminalManager a) \<Longrightarrow> wellFormed (terminalManager (runAgent evs a))"
  unfolding runAgent_def by (induction evs arbitrary: a) (simp_all add: wellFormed_step)

lemma wellFormed_reachable: "wellFormed (terminalManager (runAgent evs (connect newAgent)))"
  by (rule wellFormed_run) (simp add: connect_def newAgent_def wellFormed_new)

text \<open>
  With a clock that is positive at every reading, no state a run reaches holds a session whose
  \<open>detachedAt\<close> is 0, and in every such state the reaper removes exactly the sessions that
  satisfy the specification's condition.
\<close>

lemma stamped_new: "stamped newTerminalManager"
  by (simp add: stamped_def newTerminalManager_def)

lemma stamped_spawn: "stamped tm \<Longrightarrow> stamped (snd (spawn sid sh c rw idle now ptyFails tm))"
  by (auto simp add: stamped_def spawn_def Let_def)

lemma stamped_detach: "stamped tm \<Longrightarrow> now \<noteq> 0 \<Longrightarrow> stamped (snd (detach now sid tm))"
  by (auto simp add: stamped_def detach_def manager_defs split: option.splits if_splits)

lemma stamped_reattach: "stamped tm \<Longrightarrow> stamped (snd (reattach sid tm))"
  by (auto simp add: stamped_def reattach_def manager_defs split: option.splits if_splits)

lemma stamped_kill: "stamped tm \<Longrightarrow> stamped (snd (kill sid tm))"
  by (auto simp add: stamped_def kill_def manager_defs split: option.splits if_splits)

lemma stamped_cleanupBody: "stamped tm \<Longrightarrow> stamped (cleanupBody now sid r tm)"
  by (auto simp add: stamped_def cleanupBody_def manager_defs split: option.splits if_splits)

lemma stamped_cleanup: "stamped tm \<Longrightarrow> stamped (cleanupIdleSessions now tm)"
proof -
  have "stamped tm' \<Longrightarrow> stamped (cleanupLoop now es tm')" for es tm'
    by (induction es arbitrary: tm') (auto simp add: stamped_cleanupBody)
  then show "stamped tm \<Longrightarrow> stamped (cleanupIdleSessions now tm)"
    by (simp add: cleanupIdleSessions_def)
qed

lemma foldl_runExitCallback_stamped:
  "stamped (terminalManager (foldl (runExitCallback c) a cbs)) = stamped (terminalManager a)"
  by (simp add: stamped_def foldl_runExitCallback)

lemma stamped_onTerminalSpawn:
  "stamped (terminalManager a) \<Longrightarrow>
     stamped (terminalManager (onTerminalSpawn sid sh c rw idle now ptyFails a))"
  by (auto simp add: stamped_def onTerminalSpawn_def spawn_def emit_def Let_def manager_defs
      split: if_splits)

lemma stamped_onTerminalReattach:
  "stamped (terminalManager a) \<Longrightarrow> stamped (terminalManager (onTerminalReattach sid c rw a))"
  by (auto simp add: stamped_def onTerminalReattach_def reattach_def emit_def onManager_def Let_def
      manager_defs split: option.splits if_splits)

lemma stamped_step:
  "stamped (terminalManager a) \<Longrightarrow> clockRuns ev \<Longrightarrow> stamped (terminalManager (agentStep a ev))"
proof (cases ev)
  case (TerminalSpawn sid sh c rw idle now ptyFails)
  assume "stamped (terminalManager a)"
  then show ?thesis by (simp add: TerminalSpawn stamped_onTerminalSpawn)
next
  case (TerminalDetach now sid)
  assume "stamped (terminalManager a)" and "clockRuns ev"
  then show ?thesis
    by (simp add: TerminalDetach onTerminalDetach_def onManager_def stamped_detach clockRuns_def)
next
  case (TerminalReattach sid c rw)
  assume "stamped (terminalManager a)"
  then show ?thesis by (simp add: TerminalReattach stamped_onTerminalReattach)
next
  case (TerminalKill sid)
  assume "stamped (terminalManager a)"
  then show ?thesis by (simp add: TerminalKill onTerminalKill_def onManager_def stamped_kill)
next
  case (PtyData r d)
  assume "stamped (terminalManager a)"
  then show ?thesis
    by (auto simp add: PtyData ptyOnData_def foldl_runDataCallback_manager onManager_def
        stamped_def updSession_def split: option.splits if_splits)
next
  case (PtyExit r c)
  assume "stamped (terminalManager a)"
  then show ?thesis
    by (simp add: PtyExit ptyOnExit_def foldl_runExitCallback_stamped split: option.splits)
next
  case (IdleTick now)
  assume "stamped (terminalManager a)"
  then show ?thesis by (simp add: IdleTick onManager_def stamped_cleanup)
next
  case (SocketEvent e)
  assume "stamped (terminalManager a)"
  then show ?thesis by (simp add: SocketEvent handleEvent_manager)
qed

lemma stamped_run:
  "stamped (terminalManager a) \<Longrightarrow> \<forall>ev \<in> set evs. clockRuns ev \<Longrightarrow>
     stamped (terminalManager (runAgent evs a))"
  unfolding runAgent_def by (induction evs arbitrary: a) (simp_all add: stamped_step)

lemma stamped_reachable:
  "\<forall>ev \<in> set evs. clockRuns ev \<Longrightarrow> stamped (terminalManager (runAgent evs (connect newAgent)))"
  by (rule stamped_run) (simp_all add: connect_def newAgent_def stamped_new)

lemma reaper_exact_on_runs:
  assumes "\<forall>ev \<in> set evs. clockRuns ev"
    and "get sid (terminalManager (runAgent evs (connect newAgent))) = Some s"
  shows "has sid (cleanupIdleSessions now (terminalManager (runAgent evs (connect newAgent))))
           = (\<not> specExpired now s)"
proof -
  let ?tm = "terminalManager (runAgent evs (connect newAgent))"
  have d: "distinct (map fst (sessions ?tm))"
    using wellFormed_reachable [of evs] by (simp add: wellFormed_def)
  obtain r where "heap ?tm r = Some s"
    using assms(2) by (auto simp add: get_def split: option.splits)
  then have "detachedAt s \<noteq> Some 0"
    using stamped_reachable [OF assms(1)] by (simp add: stamped_def)
  then show ?thesis
    using reaper_removes_idleExpired [OF d assms(2), of now]
    by (simp add: idleExpired_specExpired)
qed

end
